theory Spec2Isabelle
  imports Main "HOL-Library.AList"
begin

section \<open>JavaScript strings and slices\<close>

text \<open>
  Strings are character lists; offsets are JavaScript numbers, modelled as \<open>int\<close>.
  \<open>slice(from, to)\<close> of a string (and of an Automerge text) counts a negative
  index from the end and clamps both indices to the length.
\<close>

definition js_index :: "int \<Rightarrow> int \<Rightarrow> int" where
  "js_index n i = (if i < 0 then max (n + i) 0 else min i n)"

definition js_slice :: "'a list \<Rightarrow> int \<Rightarrow> int \<Rightarrow> 'a list" where
  "js_slice s from to =
     (let n = int (length s); f = js_index n from; t = js_index n to
      in take (nat (t - f)) (drop (nat f) s))"

definition js_slice_from :: "'a list \<Rightarrow> int \<Rightarrow> 'a list" where
  "js_slice_from s from = js_slice s from (int (length s))"

section \<open>The flat document\<close>

datatype viewType = Bullet | Numbered | Document

text \<open>
  An annotation is \<open>{type, start, end, attributes}\<close>; the type decides which
  attributes it carries (block: identifier, level, viewType; metadata: title, parent;
  link: href).
\<close>

datatype annotation_type =
    Block (block_identifier: string) (block_level: int) (block_viewType: viewType)
  | Metadata (meta_title: string) (meta_parent: string)
  | Bold
  | Highlighting
  | Italics
  | Strikethrough
  | Link (link_href: string)
  | Other string

record annotation =
  a_type :: annotation_type
  a_start :: int
  a_end :: int

record schema =
  content :: string
  annotations :: "annotation list"

section \<open>The annotation serializer (applyState, the reduce over normalizedAnnotations)\<close>

record applied =
  prefix :: string
  suffix :: string

fun appliedAnnotation :: "annotation_type \<Rightarrow> applied" where
  "appliedAnnotation Bold = \<lparr>prefix = ''**'', suffix = ''**''\<rparr>"
| "appliedAnnotation Highlighting = \<lparr>prefix = ''^^'', suffix = ''^^''\<rparr>"
| "appliedAnnotation Italics = \<lparr>prefix = ''_'', suffix = ''_''\<rparr>"
| "appliedAnnotation Strikethrough = \<lparr>prefix = ''~~'', suffix = ''~~''\<rparr>"
| "appliedAnnotation (Link h) = \<lparr>prefix = ''['', suffix = '']('' @ h @ '')''\<rparr>"
| "appliedAnnotation _ = \<lparr>prefix = '''', suffix = ''''\<rparr>"

text \<open>The body of \<open>all.slice(index + 1).forEach\<close>: both sums read the old offsets.\<close>

definition shiftAnnotation :: "annotation \<Rightarrow> applied \<Rightarrow> annotation \<Rightarrow> annotation" where
  "shiftAnnotation c ap a =
     a\<lparr>a_start := a_start a
          + ((if a_start a \<ge> a_start c then int (length (prefix ap)) else 0)
           + (if a_start a \<ge> a_end c then int (length (suffix ap)) else 0)),
       a_end := a_end a
          + ((if a_end a \<ge> a_start c then int (length (prefix ap)) else 0)
           + (if a_end a > a_end c then int (length (suffix ap)) else 0))\<rparr>"

definition wrapText :: "string \<Rightarrow> annotation \<Rightarrow> applied \<Rightarrow> string" where
  "wrapText p c ap =
     js_slice p 0 (a_start c) @ prefix ap @ js_slice p (a_start c) (a_end c)
       @ suffix ap @ js_slice_from p (a_end c)"

fun annotatedText :: "string \<Rightarrow> annotation list \<Rightarrow> string" where
  "annotatedText p [] = p"
| "annotatedText p (c # rest) =
     (let ap = appliedAnnotation (a_type c)
      in annotatedText (wrapText p c ap) (map (shiftAnnotation c ap) rest))"

definition normalizeAnnotation :: "int \<Rightarrow> annotation \<Rightarrow> annotation" where
  "normalizeAnnotation offset a = a\<lparr>a_start := a_start a - offset, a_end := a_end a - offset\<rparr>"

section \<open>Property lines\<close>

definition is_lower :: "char \<Rightarrow> bool" where
  "is_lower c = (97 \<le> (of_char c :: nat) \<and> (of_char c :: nat) \<le> 122)"

definition is_hex :: "char \<Rightarrow> bool" where
  "is_hex c = ((48 \<le> (of_char c :: nat) \<and> (of_char c :: nat) \<le> 57)
              \<or> (97 \<le> (of_char c :: nat) \<and> (of_char c :: nat) \<le> 102))"

abbreviation newline :: char where
  "newline \<equiv> CHR 0x0A"

text \<open>
  A matcher tries a regular expression at the head of a string and returns what
  follows the match. The expressions of this program need no backtracking: a run of
  \<open>[a-z]\<close> or of \<open>[^\n]\<close> is always taken whole, because the character that must
  follow it is outside the class.
\<close>

type_synonym matcher = "string \<Rightarrow> string option"

text \<open>\<open>/[a-z]+:: [^\n]+\n?/\<close>\<close>

definition match_property :: matcher where
  "match_property s =
     (let r1 = dropWhile is_lower s
      in if takeWhile is_lower s = [] \<or> take 3 r1 \<noteq> '':: '' then None
         else let r2 = drop 3 r1
              in if takeWhile (\<lambda>c. c \<noteq> newline) r2 = [] then None
                 else (case dropWhile (\<lambda>c. c \<noteq> newline) r2 of
                         [] \<Rightarrow> Some []
                       | c # r3 \<Rightarrow> Some r3))"

text \<open>A literal pattern.\<close>

definition match_literal :: "string \<Rightarrow> matcher" where
  "match_literal lit s =
     (if take (length lit) s = lit then Some (drop (length lit) s) else None)"

text \<open>\<open>/\ntitle:: [^\n]+/\<close>\<close>

definition match_title :: matcher where
  "match_title s =
     (case match_literal (newline # ''title:: '') s of
        None \<Rightarrow> None
      | Some r \<Rightarrow>
          if takeWhile (\<lambda>c. c \<noteq> newline) r = [] then None
          else Some (dropWhile (\<lambda>c. c \<noteq> newline) r))"

text \<open>\<open>[0-9a-f]{8}-[0-9a-f]{4}-[0-9a-f]{4}-[0-9a-f]{4}-[0-9a-f]{12}\<close>\<close>

fun match_groups :: "nat list \<Rightarrow> string \<Rightarrow> bool" where
  "match_groups [] s = (s = [])"
| "match_groups [n] s = (length s = n \<and> list_all is_hex s)"
| "match_groups (n # ns) s =
     (list_all is_hex (take n s) \<and> length (take n s) = n \<and> take 1 (drop n s) = ''-''
      \<and> match_groups ns (drop (Suc n) s))"

definition is_samepage_uuid :: "string \<Rightarrow> bool" where
  "is_samepage_uuid s = match_groups [8, 4, 4, 4, 12] s"

text \<open>\<open>/\nsamepage:: [0-9a-f]{8}-...-[0-9a-f]{12}/\<close>\<close>

definition match_samepage :: matcher where
  "match_samepage s =
     (case match_literal (newline # ''samepage:: '') s of
        None \<Rightarrow> None
      | Some r \<Rightarrow> if is_samepage_uuid (take 36 r) then Some (drop 36 r) else None)"

text \<open>\<open>s.replace(re, "")\<close> without the \<open>g\<close> flag: the leftmost match is removed.\<close>

fun replace_first :: "matcher \<Rightarrow> string \<Rightarrow> string" where
  "replace_first m [] = []"
| "replace_first m (c # cs) =
     (case m (c # cs) of Some rest \<Rightarrow> rest | None \<Rightarrow> c # replace_first m cs)"

lemma match_property_shorter: "match_property s = Some r \<Longrightarrow> length r < length s"
proof -
  assume m: "match_property s = Some r"
  let ?r1 = "dropWhile is_lower s"
  let ?r2 = "drop 3 ?r1"
  let ?r3 = "dropWhile (\<lambda>c. c \<noteq> newline) ?r2"
  have key: "takeWhile is_lower s \<noteq> []"
  proof
    assume "takeWhile is_lower s = []"
    then have "match_property s = None" by (simp add: match_property_def)
    with m show False by simp
  qed
  have c: "(case ?r3 of [] \<Rightarrow> Some [] | c # x \<Rightarrow> Some x) = Some r"
    using m by (simp add: match_property_def Let_def split: if_splits)
  have "length r \<le> length ?r3"
  proof (cases ?r3)
    case Nil
    with c have "r = []" by (simp only: list.case option.inject)
    then show ?thesis by simp
  next
    case (Cons c' r3)
    with c have "r = r3" by (simp only: list.case option.inject)
    with Cons show ?thesis by (simp only: length_Cons le_SucI order_refl)
  qed
  also have "\<dots> \<le> length ?r2" by (rule length_dropWhile_le)
  also have "\<dots> \<le> length ?r1" by simp
  also have "\<dots> < length s"
  proof -
    have "length (takeWhile is_lower s) + length ?r1 = length s"
      by (metis length_append takeWhile_dropWhile_id)
    with key show ?thesis by (cases "takeWhile is_lower s") auto
  qed
  finally show ?thesis .
qed

text \<open>
  \<open>s.replace(/[a-z]+:: [^\n]+\n?/g, "")\<close>: every match is removed, scanning from
  the left and resuming after each match.
\<close>

function replace_properties :: "string \<Rightarrow> string" where
  "replace_properties [] = []"
| "replace_properties (c # cs) =
     (case match_property (c # cs) of
        Some rest \<Rightarrow> replace_properties rest
      | None \<Rightarrow> c # replace_properties cs)"
  by pat_completeness auto
termination
  by (relation "measure length") (auto dest: match_property_shorter)

section \<open>The host's block tree\<close>

datatype 'a tree = Tree (tdata: 'a) (children: "'a tree list")

text \<open>
  What the program reads of a \<open>BlockEntity\<close>: its uuid, its raw content, its
  view type when it declares one, and its \<open>samepage\<close> property (empty when absent).
  \<open>getPageBlocksTree\<close> returns the children expanded.
\<close>

record blockData =
  be_uuid :: string
  be_content :: string
  be_viewType :: "viewType option"
  be_samepage :: string

type_synonym blockEntity = "blockData tree"

text \<open>\<open>!b.content || b.content.replace(/[a-z]+:: [^\n]+\n?/g, "")\<close>, read as a truth value.\<close>

definition isContentBlock :: "blockEntity \<Rightarrow> bool" where
  "isContentBlock b =
     (be_content (tdata b) = [] \<or> replace_properties (be_content (tdata b)) \<noteq> [])"

section \<open>Promises over the host, the identifier stores and the call log\<close>

text \<open>
  The two IndexedDB object stores \<open>logseq-to-samepage\<close> and \<open>samepage-to-logseq\<close>.
\<close>

record idb =
  logseq_to_samepage :: "string \<rightharpoonup> string"
  samepage_to_logseq :: "string \<rightharpoonup> string"

text \<open>\<open>db.get(store, s).then((v) => v || "")\<close>\<close>

definition logseqToSamepage :: "idb \<Rightarrow> string \<Rightarrow> string" where
  "logseqToSamepage d s = (case logseq_to_samepage d s of Some v \<Rightarrow> v | None \<Rightarrow> [])"

definition samepageToLogseq :: "idb \<Rightarrow> string \<Rightarrow> string" where
  "samepageToLogseq d s = (case samepage_to_logseq d s of Some v \<Rightarrow> v | None \<Rightarrow> [])"

definition saveIdMap :: "string \<Rightarrow> string \<Rightarrow> idb \<Rightarrow> idb" where
  "saveIdMap logseq samepage d =
     d\<lparr>logseq_to_samepage := (logseq_to_samepage d)(logseq \<mapsto> samepage),
       samepage_to_logseq := (samepage_to_logseq d)(samepage \<mapsto> logseq)\<rparr>"

definition removeIdMap :: "string \<Rightarrow> string \<Rightarrow> idb \<Rightarrow> idb" where
  "removeIdMap logseq samepage d =
     d\<lparr>logseq_to_samepage := (logseq_to_samepage d)(logseq := None),
       samepage_to_logseq := (samepage_to_logseq d)(samepage := None)\<rparr>"

definition removeLogseqUuid :: "string \<Rightarrow> idb \<Rightarrow> idb" where
  "removeLogseqUuid logseq d = removeIdMap logseq (logseqToSamepage d logseq) d"

text \<open>
  A block or page is addressed by its uuid or by its database id; a missing argument
  is \<open>undefined\<close>.
\<close>

datatype entityRef = ByUuid string | ById int | Undefined

record pageEntity =
  pg_uuid :: string
  pg_originalName :: string

text \<open>What \<open>getBlock\<close> returns: the block with its children, and \<open>parent.id\<close>.\<close>

record blockReply =
  br_block :: blockEntity
  br_parent_id :: int

text \<open>Every call the program makes on the host, with its arguments.\<close>

datatype call =
    GetPageByPropertyId string
  | GetPageBlocksTree string
  | GetBlock entityRef
  | GetPage entityRef
  | UpdateBlock string string
  | UpsertBlockProperty string string string
  | RenamePage "string option" string
  | RemoveBlock string
  | InsertBlock string string bool
  | AppendBlockInPage "string option" string
  | MoveBlock string "string option"

text \<open>
  The host is outside the program: it is a parameter. A call answers with a value or
  rejects with an error message, and may change the host's state \<open>'h\<close>.
\<close>

record 'h editor =
  getPageByPropertyId :: "string \<Rightarrow> 'h \<Rightarrow> (string + pageEntity option) \<times> 'h"
  getPageBlocksTree :: "string \<Rightarrow> 'h \<Rightarrow> (string + blockEntity list option) \<times> 'h"
  getBlock :: "entityRef \<Rightarrow> 'h \<Rightarrow> (string + blockReply option) \<times> 'h"
  getPage :: "entityRef \<Rightarrow> 'h \<Rightarrow> (string + pageEntity option) \<times> 'h"
  updateBlock :: "string \<Rightarrow> string \<Rightarrow> 'h \<Rightarrow> (string + unit) \<times> 'h"
  upsertBlockProperty :: "string \<Rightarrow> string \<Rightarrow> string \<Rightarrow> 'h \<Rightarrow> (string + unit) \<times> 'h"
  renamePage :: "string option \<Rightarrow> string \<Rightarrow> 'h \<Rightarrow> (string + unit) \<times> 'h"
  removeBlock :: "string \<Rightarrow> 'h \<Rightarrow> (string + unit) \<times> 'h"
  insertBlock :: "string \<Rightarrow> string \<Rightarrow> bool \<Rightarrow> 'h \<Rightarrow> (string + blockEntity option) \<times> 'h"
  appendBlockInPage :: "string option \<Rightarrow> string \<Rightarrow> 'h \<Rightarrow> (string + blockEntity option) \<times> 'h"
  moveBlock :: "string \<Rightarrow> string option \<Rightarrow> 'h \<Rightarrow> (string + unit) \<times> 'h"

text \<open>
  A JavaScript object with string keys: its own properties in insertion order.
  Assigning to an existing key keeps the key's place.
\<close>

type_synonym 'v js_object = "(string \<times> 'v) list"

definition js_set :: "string \<Rightarrow> 'v \<Rightarrow> 'v js_object \<Rightarrow> 'v js_object" where
  "js_set k v obj = AList.update k v obj"

definition js_get :: "'v js_object \<Rightarrow> string \<Rightarrow> 'v option" where
  "js_get obj k = map_of obj k"

text \<open>
  The state a run threads: the host, the identifier stores, how many uuids \<open>v4()\<close>
  has handed out, the log of host calls, and \<open>expectedSamepageToLogseq\<close> (the
  object of \<open>applyState\<close> that its create steps assign to).
\<close>

record 'h world =
  host :: 'h
  idb :: idb
  v4_count :: nat
  calls :: "call list"
  expectedSamepageToLogseq :: "string js_object"

type_synonym ('h, 'a) promise = "'h world \<Rightarrow> (string + 'a) \<times> 'h world"

definition resolve :: "'a \<Rightarrow> ('h, 'a) promise" where
  "resolve v w = (Inr v, w)"

definition reject :: "string \<Rightarrow> ('h, 'a) promise" where
  "reject e w = (Inl e, w)"

text \<open>\<open>p.then(f)\<close>: \<open>f\<close> runs once \<open>p\<close> has resolved, and not at all when it rejects.\<close>

definition andThen :: "('h, 'a) promise \<Rightarrow> ('a \<Rightarrow> ('h, 'b) promise) \<Rightarrow> ('h, 'b) promise" where
  "andThen p f w = (case p w of (Inl e, w') \<Rightarrow> (Inl e, w') | (Inr v, w') \<Rightarrow> f v w')"

text \<open>\<open>p.catch(f)\<close>\<close>

definition catch :: "('h, 'a) promise \<Rightarrow> (string \<Rightarrow> ('h, 'a) promise) \<Rightarrow> ('h, 'a) promise" where
  "catch p f w = (case p w of (Inl e, w') \<Rightarrow> f e w' | (Inr v, w') \<Rightarrow> (Inr v, w'))"

text \<open>A host call: logged, then answered by the host.\<close>

definition hostCall :: "call \<Rightarrow> ('h \<Rightarrow> (string + 'a) \<times> 'h) \<Rightarrow> ('h, 'a) promise" where
  "hostCall c f w =
     (case f (host w) of (r, h') \<Rightarrow> (r, w\<lparr>host := h', calls := calls w @ [c]\<rparr>))"

text \<open>A step on the identifier stores.\<close>

definition onIdb :: "(idb \<Rightarrow> idb) \<Rightarrow> ('h, unit) promise" where
  "onIdb f w = (Inr (), w\<lparr>idb := f (idb w)\<rparr>)"

section \<open>The encoder: toAtJson and calculateState\<close>

text \<open>
  \<open>atJsonParser(blockGrammar, \<cdot>)\<close> and \<open>v4()\<close> are outside the program: the
  parser is a parameter \<open>P\<close>, and \<open>G n\<close> is the uuid that the \<open>n\<close>-th call of
  \<open>v4()\<close> returns.
\<close>

type_synonym parser = "string \<Rightarrow> schema"

text \<open>
  The three \<open>replace\<close> calls on \<open>n.content\<close>. A block's uuid is made of
  hexadecimal digits and hyphens, so \<open>\nid:: ${n.uuid}\<close> is a literal pattern.
\<close>

definition preContent :: "string \<Rightarrow> string \<Rightarrow> string" where
  "preContent u c =
     replace_first match_samepage
       (replace_first match_title
         (replace_first (match_literal (newline # ''id:: '' @ u)) c))"

definition resolveIdentifier :: "(nat \<Rightarrow> string) \<Rightarrow> string \<Rightarrow> 'h world \<Rightarrow> string \<times> 'h world" where
  "resolveIdentifier G u w =
     (let identifier = logseqToSamepage (idb w) u
      in if identifier \<noteq> [] then (identifier, w)
         else (let samepageUuid = G (v4_count w)
               in (samepageUuid,
                   w\<lparr>idb := saveIdMap u samepageUuid (idb w), v4_count := Suc (v4_count w)\<rparr>)))"

definition rebase :: "int \<Rightarrow> annotation \<Rightarrow> annotation" where
  "rebase index a = a\<lparr>a_start := a_start a + index, a_end := a_end a + index\<rparr>"

definition concatSchema :: "schema \<Rightarrow> schema \<Rightarrow> schema" where
  "concatSchema p c =
     \<lparr>content = content p @ content c, annotations = annotations p @ annotations c\<rparr>"

text \<open>
  \<open>toAtJsonNode\<close> is the function \<open>(index) => ...\<close> made for one node;
  \<open>toAtJsonFrom\<close> is the \<open>reduce\<close> over the nodes, with the accumulated document.
\<close>

fun toAtJsonNode ::
    "parser \<Rightarrow> (nat \<Rightarrow> string) \<Rightarrow> blockEntity \<Rightarrow> int \<Rightarrow> viewType \<Rightarrow> int \<Rightarrow> 'h world
      \<Rightarrow> schema \<times> 'h world"
  and toAtJsonFrom ::
    "parser \<Rightarrow> (nat \<Rightarrow> string) \<Rightarrow> blockEntity list \<Rightarrow> int \<Rightarrow> int \<Rightarrow> viewType \<Rightarrow> schema
      \<Rightarrow> 'h world \<Rightarrow> schema \<times> 'h world"
where
  "toAtJsonNode P G (Tree n kids) level viewType index w =
     (case resolveIdentifier G (be_uuid n) w of
        (identifier, w1) \<Rightarrow>
          (let parsed = P (preContent (be_uuid n) (be_content n));
               end = int (length (content parsed)) + index;
               blockAnnotations =
                 [\<lparr>a_type = Block identifier level viewType, a_start = index, a_end = end\<rparr>]
           in (case toAtJsonFrom P G kids (level + 1) end
                      (case be_viewType n of Some v \<Rightarrow> v | None \<Rightarrow> viewType)
                      \<lparr>content = [], annotations = []\<rparr> w1 of
                 (childrenDoc, w2) \<Rightarrow>
                   (\<lparr>content = content parsed @ content childrenDoc,
                     annotations = blockAnnotations @ map (rebase index) (annotations parsed)
                                     @ annotations childrenDoc\<rparr>, w2))))"
| "toAtJsonFrom P G [] level startIndex viewType p w = (p, w)"
| "toAtJsonFrom P G (n # ns) level startIndex viewType p w =
     (case toAtJsonNode P G n level viewType (startIndex + int (length (content p))) w of
        (c, w1) \<Rightarrow> toAtJsonFrom P G ns level startIndex viewType (concatSchema p c) w1)"

definition toAtJson ::
    "parser \<Rightarrow> (nat \<Rightarrow> string) \<Rightarrow> blockEntity list \<Rightarrow> int \<Rightarrow> int \<Rightarrow> viewType \<Rightarrow> 'h world
      \<Rightarrow> schema \<times> 'h world" where
  "toAtJson P G nodes level startIndex viewType w =
     toAtJsonFrom P G nodes level startIndex viewType \<lparr>content = [], annotations = []\<rparr> w"

text \<open>Reading a property of \<open>null\<close> throws a TypeError.\<close>

definition typeError :: string where
  "typeError = ''TypeError''"



section \<open>Enumerating a JavaScript object\<close>

text \<open>
  \<open>Object.keys\<close>, \<open>Object.values\<close> and \<open>Object.entries\<close> list the keys that are
  array indices first, in ascending numeric order, and then the other keys in
  insertion order. An array index is the canonical decimal form of an integer below
  \<open>2^32 - 1\<close>.
\<close>

definition is_digit :: "char \<Rightarrow> bool" where
  "is_digit c = (48 \<le> (of_char c :: nat) \<and> (of_char c :: nat) \<le> 57)"

definition index_value :: "string \<Rightarrow> nat" where
  "index_value s = foldl (\<lambda>n c. 10 * n + ((of_char c :: nat) - 48)) 0 s"

definition is_array_index :: "string \<Rightarrow> bool" where
  "is_array_index s =
     (s \<noteq> [] \<and> list_all is_digit s \<and> (length s = 1 \<or> hd s \<noteq> CHR ''0'')
      \<and> index_value s < 4294967295)"

definition js_entries :: "'v js_object \<Rightarrow> (string \<times> 'v) list" where
  "js_entries obj =
     sort_key (\<lambda>kv. index_value (fst kv)) (filter (\<lambda>kv. is_array_index (fst kv)) obj)
       @ filter (\<lambda>kv. \<not> is_array_index (fst kv)) obj"

definition js_keys :: "'v js_object \<Rightarrow> string list" where
  "js_keys obj = map fst (js_entries obj)"

definition js_values :: "'v js_object \<Rightarrow> 'v list" where
  "js_values obj = map snd (js_entries obj)"

definition fromEntries :: "(string \<times> 'v) list \<Rightarrow> 'v js_object" where
  "fromEntries kvs = foldl (\<lambda>obj kv. js_set (fst kv) (snd kv) obj) [] kvs"

section \<open>The reconciler: applyState\<close>

subsection \<open>The desired tree\<close>

text \<open>
  An \<open>InputTextNode\<close>. Nodes are objects: \<open>mapping\<close> holds references to the
  nodes of \<open>expectedTree\<close>, and a node's content is assigned through such a
  reference. \<open>n_addr\<close> is the node's identity, the number of nodes made before it.
\<close>

record nodeData =
  n_addr :: nat
  n_uuid :: string
  n_content :: string
  n_viewType :: viewType

type_synonym inputTextNode = "nodeData tree"

lemma size_children_last:
  "nodes \<noteq> [] \<Longrightarrow> size_list size (children (last nodes)) < size_list size nodes"
proof (induction nodes)
  case Nil
  then show ?case by simp
next
  case (Cons n ns)
  show ?case
  proof (cases "ns = []")
    case True
    then show ?thesis by (cases n) simp
  next
    case False
    with Cons.IH show ?thesis by simp
  qed
qed

text \<open>
  \<open>insertAtLevel(nodes, level, parentUuid)\<close> pushes \<open>currentBlock\<close>. Its third
  argument is only stored in \<open>parents\<close>, an object that is never read, so both are
  left out.
\<close>

function insertAtLevel :: "'a tree list \<Rightarrow> int \<Rightarrow> 'a tree \<Rightarrow> 'a tree list" where
  "insertAtLevel nodes level currentBlock =
     (if level = 0 \<or> nodes = [] then nodes @ [currentBlock]
      else butlast nodes @
             [Tree (tdata (last nodes))
                (insertAtLevel (children (last nodes)) (level - 1) currentBlock)])"
  by pat_completeness auto
termination
  by (relation "measure (\<lambda>(nodes, level, currentBlock). size_list size nodes)")
     (auto simp: size_children_last)

declare insertAtLevel.simps [simp del]

record contentAnnotation =
  ca_start :: int
  ca_end :: int
  ca_annotations :: "annotation list"

text \<open>
  The variables of the \<open>forEach\<close> over \<open>state.annotations\<close>. \<open>metadata\<close> is the
  title and parent that \<open>initialPromise\<close> closes over, \<open>None\<close> while it is still the
  default.
\<close>

record pass =
  expectedTree :: "inputTextNode list"
  mapping :: "nat js_object"
  contentAnnotations :: "contentAnnotation js_object"
  metadata :: "(string \<times> string) option"
  allocated :: nat

definition emptyPass :: pass where
  "emptyPass = \<lparr>expectedTree = [], mapping = [], contentAnnotations = [],
                 metadata = None, allocated = 0\<rparr>"

definition contains :: "annotation \<Rightarrow> string \<times> contentAnnotation \<Rightarrow> bool" where
  "contains anno kca = (ca_start (snd kca) \<le> a_start anno \<and> a_end anno \<le> ca_end (snd kca))"

definition applyAnnotation :: "string \<Rightarrow> annotation \<Rightarrow> pass \<Rightarrow> pass" where
  "applyAnnotation text anno s =
     (case a_type anno of
        Block identifier level vt \<Rightarrow>
          (let currentBlock =
                 Tree \<lparr>n_addr = allocated s, n_uuid = identifier,
                       n_content = js_slice text (a_start anno) (a_end anno),
                       n_viewType = Bullet\<rparr> []
           in s\<lparr>mapping := js_set identifier (allocated s) (mapping s),
                contentAnnotations :=
                  js_set identifier
                    \<lparr>ca_start = a_start anno, ca_end = a_end anno, ca_annotations = []\<rparr>
                    (contentAnnotations s),
                expectedTree := insertAtLevel (expectedTree s) level currentBlock,
                allocated := Suc (allocated s)\<rparr>)
      | Metadata title parent \<Rightarrow> s\<lparr>metadata := Some (title, parent)\<rparr>
      | _ \<Rightarrow>
          (case find (contains anno) (js_entries (contentAnnotations s)) of
             Some kca \<Rightarrow>
               s\<lparr>contentAnnotations :=
                    js_set (fst kca)
                      ((snd kca)\<lparr>ca_annotations := ca_annotations (snd kca) @ [anno]\<rparr>)
                      (contentAnnotations s)\<rparr>
           | None \<Rightarrow> s))"

definition readAnnotations :: "schema \<Rightarrow> pass" where
  "readAnnotations state =
     foldl (\<lambda>s anno. applyAnnotation (content state) anno s) emptyPass (annotations state)"

subsection \<open>Serializing each block\<close>

definition setContent :: "nat \<Rightarrow> (string \<Rightarrow> string) \<Rightarrow> inputTextNode list \<Rightarrow> inputTextNode list" where
  "setContent addr f nodes =
     map (map_tree (\<lambda>n. if n_addr n = addr then n\<lparr>n_content := f (n_content n)\<rparr> else n)) nodes"

text \<open>
  One step of \<open>Object.entries(contentAnnotations).forEach\<close>. Both objects get their
  keys together, so \<open>mapping[blockUid]\<close> is always there.
\<close>

definition serializeBlock ::
    "nat js_object \<Rightarrow> inputTextNode list \<Rightarrow> string \<times> contentAnnotation \<Rightarrow> inputTextNode list" where
  "serializeBlock m nodes e =
     (case js_get m (fst e) of
        None \<Rightarrow> nodes
      | Some addr \<Rightarrow>
          setContent addr
            (\<lambda>c. annotatedText c
                   (map (normalizeAnnotation (ca_start (snd e))) (ca_annotations (snd e))))
            nodes)"

definition serializeBlocks :: "pass \<Rightarrow> inputTextNode list" where
  "serializeBlocks s =
     foldl (serializeBlock (mapping s)) (expectedTree s) (js_entries (contentAnnotations s))"

subsection \<open>Flattening\<close>

record 'a flat =
  f_node :: 'a
  f_order :: nat
  f_parentUuid :: string

text \<open>
  \<open>flattenTree(tree, parentUuid)\<close>; \<open>flattenFrom\<close> carries the index that
  \<open>flatMap\<close> hands to its callback.
\<close>

fun flattenFrom :: "('a \<Rightarrow> string) \<Rightarrow> nat \<Rightarrow> 'a tree list \<Rightarrow> string \<Rightarrow> 'a flat list" where
  "flattenFrom uuid_of order [] parentUuid = []"
| "flattenFrom uuid_of order (Tree t kids # rest) parentUuid =
     \<lparr>f_node = t, f_order = order, f_parentUuid = parentUuid\<rparr>
       # flattenFrom uuid_of 0 kids (uuid_of t)
       @ flattenFrom uuid_of (Suc order) rest parentUuid"

definition flattenTree :: "('a \<Rightarrow> string) \<Rightarrow> 'a tree list \<Rightarrow> string \<Rightarrow> 'a flat list" where
  "flattenTree uuid_of tree parentUuid = flattenFrom uuid_of 0 tree parentUuid"

definition expectedTreeMappingOf :: "string \<Rightarrow> inputTextNode list \<Rightarrow> nodeData flat js_object" where
  "expectedTreeMappingOf notebookPageId tree =
     fromEntries
       (map (\<lambda>n. (n_uuid (f_node n), n))
          (filter (\<lambda>n. n_uuid (f_node n) \<noteq> []) (flattenTree n_uuid tree notebookPageId)))"

definition actualTreeMappingOf :: "string \<Rightarrow> blockEntity list \<Rightarrow> blockData flat js_object" where
  "actualTreeMappingOf notebookPageId tree =
     fromEntries
       (map (\<lambda>n. (be_uuid (f_node n), n))
          (flattenTree be_uuid (filter isContentBlock tree) notebookPageId))"

definition readActualTree :: "'h editor \<Rightarrow> string \<Rightarrow> ('h, blockData flat js_object) promise" where
  "readActualTree E notebookPageId =
     andThen
       (andThen (hostCall (GetPageByPropertyId notebookPageId)
                   (getPageByPropertyId E notebookPageId))
          (\<lambda>page. case page of
                     Some pg \<Rightarrow>
                       andThen (hostCall (GetPageBlocksTree (pg_originalName pg))
                                  (getPageBlocksTree E (pg_originalName pg)))
                         (\<lambda>t. resolve (case t of Some tree \<Rightarrow> tree | None \<Rightarrow> []))
                   | None \<Rightarrow> resolve []))
       (\<lambda>tree. resolve (actualTreeMappingOf notebookPageId tree))"

subsection \<open>Classifying\<close>

definition expectedSamepageToLogseqOf :: "idb \<Rightarrow> 'v js_object \<Rightarrow> string js_object" where
  "expectedSamepageToLogseqOf d expectedTreeMapping =
     fromEntries (map (\<lambda>k. (k, samepageToLogseq d k)) (js_keys expectedTreeMapping))"

definition uuidsToCreate :: "string js_object \<Rightarrow> 'v js_object \<Rightarrow> (string \<times> string) list" where
  "uuidsToCreate e2l actualTreeMapping =
     filter (\<lambda>e. snd e = [] \<or> js_get actualTreeMapping (snd e) = None) (js_entries e2l)"

definition expectedUuids :: "string js_object \<Rightarrow> string set" where
  "expectedUuids e2l = set (filter (\<lambda>r. r \<noteq> []) (js_values e2l))"

definition uuidsToDelete :: "string js_object \<Rightarrow> 'v js_object \<Rightarrow> string list" where
  "uuidsToDelete e2l actualTreeMapping =
     filter (\<lambda>k. k \<notin> expectedUuids e2l) (js_keys actualTreeMapping)"

definition uuidsToUpdate :: "string js_object \<Rightarrow> 'v js_object \<Rightarrow> (string \<times> string) list" where
  "uuidsToUpdate e2l actualTreeMapping =
     filter (\<lambda>e. js_get actualTreeMapping (snd e) \<noteq> None) (js_entries e2l)"

subsection \<open>The steps\<close>

text \<open>
  \<open>node.originalName || node.content\<close>: a page has a name and no content, a block
  has content and no name.
\<close>

definition pageTitle :: "pageEntity \<Rightarrow> string option" where
  "pageTitle pg = (if pg_originalName pg \<noteq> [] then Some (pg_originalName pg) else None)"

definition blockTitle :: "blockReply \<Rightarrow> string option" where
  "blockTitle b = Some (be_content (tdata (br_block b)))"

definition claimsOtherPage :: "string \<Rightarrow> blockEntity \<Rightarrow> bool" where
  "claimsOtherPage notebookPageId b =
     (be_samepage (tdata b) \<noteq> [] \<and> be_samepage (tdata b) \<noteq> notebookPageId)"

definition renameTo :: "'h editor \<Rightarrow> string \<Rightarrow> string option \<Rightarrow> string \<Rightarrow> ('h, unit) promise" where
  "renameTo E notebookPageId existingTitle title =
     andThen
       (andThen (hostCall (GetPageBlocksTree title) (getPageBlocksTree E title))
          (\<lambda>t. case t of
                  None \<Rightarrow> resolve ()
                | Some tree \<Rightarrow>
                    (case find (claimsOtherPage notebookPageId) tree of
                       Some blockWithProperty \<Rightarrow>
                         hostCall
                           (UpsertBlockProperty (be_uuid (tdata blockWithProperty)) ''samepage''
                              notebookPageId)
                           (upsertBlockProperty E (be_uuid (tdata blockWithProperty)) ''samepage''
                              notebookPageId)
                     | None \<Rightarrow> resolve ())))
       (\<lambda>_. hostCall (RenamePage existingTitle title) (renamePage E existingTitle title))"

definition retitleBlock :: "'h editor \<Rightarrow> string \<Rightarrow> string \<Rightarrow> ('h, unit) promise" where
  "retitleBlock E notebookPageId title =
     andThen (hostCall (GetBlock (ByUuid notebookPageId)) (getBlock E (ByUuid notebookPageId)))
       (\<lambda>block. case block of
                  None \<Rightarrow> resolve ()
                | Some b \<Rightarrow>
                    hostCall (UpdateBlock (be_uuid (tdata (br_block b))) title)
                      (updateBlock E (be_uuid (tdata (br_block b))) title))"

text \<open>\<open>initialPromise\<close>, as the metadata annotation leaves it.\<close>

definition initialPromise ::
    "'h editor \<Rightarrow> string \<Rightarrow> (string \<times> string) option \<Rightarrow> ('h, unit) promise" where
  "initialPromise E notebookPageId m =
     (case m of
        None \<Rightarrow> resolve ()
      | Some (title, parent) \<Rightarrow>
          catch
            (andThen
               (if parent \<noteq> []
                then andThen (hostCall (GetBlock (ByUuid notebookPageId))
                                (getBlock E (ByUuid notebookPageId)))
                       (\<lambda>b. resolve (map_option blockTitle b))
                else andThen (hostCall (GetPageByPropertyId notebookPageId)
                                (getPageByPropertyId E notebookPageId))
                       (\<lambda>pg. resolve (map_option pageTitle pg)))
               (\<lambda>node. case node of
                         Some existingTitle \<Rightarrow>
                           if existingTitle \<noteq> Some title
                           then (if parent \<noteq> [] then retitleBlock E notebookPageId title
                                 else renameTo E notebookPageId existingTitle title)
                           else resolve ()
                       | None \<Rightarrow> reject (''Missing page with id: '' @ notebookPageId)))
            (\<lambda>e. reject (''Failed to initialize page metadata: '' @ e)))"

text \<open>One element of \<open>uuidsToDelete.map\<close>.\<close>

definition removePromise :: "'h editor \<Rightarrow> string \<Rightarrow> ('h, unit) promise" where
  "removePromise E uuid =
     catch
       (andThen (hostCall (RemoveBlock uuid) (removeBlock E uuid))
          (\<lambda>_. onIdb (removeLogseqUuid uuid)))
       (\<lambda>e. reject (''Failed to remove block '' @ uuid @ '': '' @ e))"

text \<open>\<open>block && upsertBlockProperty(block.uuid, "id", block.uuid).then(() => block.uuid)\<close>;
  a missing block yields the empty uuid.\<close>

definition tagCreated :: "'h editor \<Rightarrow> blockEntity option \<Rightarrow> ('h, string) promise" where
  "tagCreated E block =
     (case block of
        None \<Rightarrow> resolve []
      | Some b \<Rightarrow>
          andThen (hostCall (UpsertBlockProperty (be_uuid (tdata b)) ''id'' (be_uuid (tdata b)))
                     (upsertBlockProperty E (be_uuid (tdata b)) ''id'' (be_uuid (tdata b))))
            (\<lambda>_. resolve (be_uuid (tdata b))))"

definition refOf :: "string option \<Rightarrow> entityRef" where
  "refOf u = (case u of Some v \<Rightarrow> ByUuid v | None \<Rightarrow> Undefined)"

definition insertUnderPage ::
    "'h editor \<Rightarrow> string \<Rightarrow> nat \<Rightarrow> string \<Rightarrow> ('h, string) promise" where
  "insertUnderPage E notebookPageId order text =
     andThen (hostCall (GetPageByPropertyId notebookPageId)
                (getPageByPropertyId E notebookPageId))
       (\<lambda>p. case p of
               None \<Rightarrow> reject (''Failed to find page '' @ notebookPageId)
             | Some pg \<Rightarrow>
                 andThen (hostCall (GetPageBlocksTree (pg_originalName pg))
                            (getPageBlocksTree E (pg_originalName pg)))
                   (\<lambda>t. case t of
                           None \<Rightarrow> reject typeError
                         | Some tree \<Rightarrow>
                             andThen
                               (if int order < int (length tree) - 1
                                then hostCall
                                       (InsertBlock (be_uuid (tdata (tree ! (order + 1)))) text True)
                                       (insertBlock E (be_uuid (tdata (tree ! (order + 1)))) text True)
                                else hostCall (AppendBlockInPage (Some (pg_originalName pg)) text)
                                       (appendBlockInPage E (Some (pg_originalName pg)) text))
                               (tagCreated E)))"

definition insertUnderBlock ::
    "'h editor \<Rightarrow> string \<Rightarrow> nat \<Rightarrow> string \<Rightarrow> ('h, string) promise" where
  "insertUnderBlock E parentUuid order text =
     andThen
       (andThen
          (\<lambda>w. hostCall (GetBlock (refOf (js_get (expectedSamepageToLogseq w) parentUuid)))
                 (getBlock E (refOf (js_get (expectedSamepageToLogseq w) parentUuid))) w)
          (\<lambda>block. case block of
                     None \<Rightarrow> reject (''Referencing parent '' @ parentUuid @ '' but none exists'')
                   | Some b \<Rightarrow>
                       if order < length (children (br_block b))
                       then hostCall
                              (InsertBlock (be_uuid (tdata (children (br_block b) ! order))) text False)
                              (insertBlock E (be_uuid (tdata (children (br_block b) ! order))) text False)
                       else (\<lambda>w. hostCall
                                    (AppendBlockInPage (js_get (expectedSamepageToLogseq w) parentUuid) text)
                                    (appendBlockInPage E
                                       (js_get (expectedSamepageToLogseq w) parentUuid) text) w)))
       (tagCreated E)"

definition recordCreated :: "string \<Rightarrow> string \<Rightarrow> ('h, unit) promise" where
  "recordCreated samepageUuid uuid =
     andThen (onIdb (saveIdMap uuid samepageUuid))
       (\<lambda>_ w. (Inr (),
                w\<lparr>expectedSamepageToLogseq :=
                     js_set samepageUuid uuid (expectedSamepageToLogseq w)\<rparr>))"

text \<open>One element of \<open>uuidsToCreate.map\<close>.\<close>

definition insertPromise ::
    "'h editor \<Rightarrow> string \<Rightarrow> nodeData flat js_object \<Rightarrow> string \<Rightarrow> ('h, unit) promise" where
  "insertPromise E notebookPageId expectedTreeMapping samepageUuid =
     (case js_get expectedTreeMapping samepageUuid of
        None \<Rightarrow> reject typeError
      | Some n \<Rightarrow>
          catch
            (andThen
               (if f_parentUuid n = notebookPageId
                then insertUnderPage E notebookPageId (f_order n) (n_content (f_node n))
                else insertUnderBlock E (f_parentUuid n) (f_order n) (n_content (f_node n)))
               (\<lambda>uuid. if uuid \<noteq> [] then recordCreated samepageUuid uuid
                        else reject ''null block uuid created''))
            (\<lambda>e. reject (''Failed to insert block '' @ samepageUuid @ '': '' @ e)))"

text \<open>One element of \<open>uuidsToUpdate.map\<close>.\<close>

definition updatePromise ::
    "'h editor \<Rightarrow> string \<Rightarrow> nodeData flat js_object \<Rightarrow> blockData flat js_object
      \<Rightarrow> string \<times> string \<Rightarrow> ('h, unit) promise" where
  "updatePromise E notebookPageId expectedTreeMapping actualTreeMapping e w =
     (case js_get expectedTreeMapping (fst e) of
        None \<Rightarrow> reject typeError w
      | Some n \<Rightarrow>
          (let parentUuid =
                 (if f_parentUuid n = notebookPageId then Some (f_parentUuid n)
                  else js_get (expectedSamepageToLogseq w) (f_parentUuid n))
           in case js_get actualTreeMapping (snd e) of
                None \<Rightarrow> reject typeError w
              | Some actual \<Rightarrow>
                  if Some (f_parentUuid actual) \<noteq> parentUuid \<or> f_order actual \<noteq> f_order n
                  then catch (hostCall (MoveBlock (snd e) parentUuid)
                                (moveBlock E (snd e) parentUuid))
                         (\<lambda>m. reject (''Failed to move block '' @ fst e @ '': '' @ m)) w
                  else if be_content (f_node actual) \<noteq> n_content (f_node n)
                  then catch (hostCall (UpdateBlock (snd e) (n_content (f_node n)))
                                (updateBlock E (snd e) (n_content (f_node n))))
                         (\<lambda>m. reject (''Failed to update block '' @ fst e @ '': '' @ m)) w
                  else resolve () w))"

subsection \<open>The whole of applyState\<close>

text \<open>\<open>promises.reduce((p, c) => p.then(c), Promise.resolve(""))\<close>\<close>

definition runPromises :: "('h, unit) promise list \<Rightarrow> ('h, unit) promise" where
  "runPromises promises = foldl (\<lambda>p c. andThen p (\<lambda>_. c)) (resolve ()) promises"

definition promisesOf ::
    "'h editor \<Rightarrow> string \<Rightarrow> (string \<times> string) option \<Rightarrow> nodeData flat js_object
      \<Rightarrow> blockData flat js_object \<Rightarrow> string js_object \<Rightarrow> ('h, unit) promise list" where
  "promisesOf E notebookPageId m expectedTreeMapping actualTreeMapping e2l =
     [initialPromise E notebookPageId m]
       @ map (removePromise E) (uuidsToDelete e2l actualTreeMapping)
       @ map (\<lambda>e. insertPromise E notebookPageId expectedTreeMapping (fst e))
           (uuidsToCreate e2l actualTreeMapping)
       @ map (updatePromise E notebookPageId expectedTreeMapping actualTreeMapping)
           (uuidsToUpdate e2l actualTreeMapping)"

definition applyState :: "'h editor \<Rightarrow> string \<Rightarrow> schema \<Rightarrow> ('h, unit) promise" where
  "applyState E notebookPageId state =
     (let s = readAnnotations state;
          expectedTreeMapping = expectedTreeMappingOf notebookPageId (serializeBlocks s)
      in andThen (readActualTree E notebookPageId)
           (\<lambda>actualTreeMapping w.
              let e2l = expectedSamepageToLogseqOf (idb w) expectedTreeMapping
              in runPromises
                   (promisesOf E notebookPageId (metadata s) expectedTreeMapping
                      actualTreeMapping e2l)
                   (w\<lparr>expectedSamepageToLogseq := e2l\<rparr>)))"

section \<open>A host that answers from a snapshot\<close>

text \<open>
  A simple host to run the program on: it answers every read from a fixed page and
  block tree, accepts every change without applying it, and rejects the calls that
  \<open>refuse\<close> names, with the message given there.
\<close>

record snapshot =
  sn_page :: "pageEntity option"
  sn_tree :: "blockEntity list"
  sn_created :: "blockEntity option"





text \<open>The calls that change the host.\<close>

fun isMutation :: "call \<Rightarrow> bool" where
  "isMutation (UpdateBlock u c) = True"
| "isMutation (UpsertBlockProperty u k v) = True"
| "isMutation (RenamePage old new) = True"
| "isMutation (RemoveBlock u) = True"
| "isMutation (InsertBlock u c b) = True"
| "isMutation (AppendBlockInPage p c) = True"
| "isMutation (MoveBlock u p) = True"
| "isMutation _ = False"

text \<open>A parser for text without markup: the text itself, and no annotation.\<close>

definition plainText :: parser where
  "plainText s = \<lparr>content = s, annotations = []\<rparr>"

section \<open>An example page\<close>

text \<open>
  A page \<open>Page\<close> with a block \<open>b1\<close> that carries its id property and has a child
  \<open>b2\<close>; \<open>b1\<close> is already mapped to the identifier \<open>g1\<close>, \<open>b2\<close> is not mapped
  yet, and \<open>v4()\<close> hands out \<open>g2\<close>.
\<close>

definition block :: "string \<Rightarrow> string \<Rightarrow> blockEntity list \<Rightarrow> blockEntity" where
  "block u c kids =
     Tree \<lparr>be_uuid = u, be_content = c, be_viewType = None, be_samepage = []\<rparr> kids"

definition examplePage :: pageEntity where
  "examplePage = \<lparr>pg_uuid = ''p1'', pg_originalName = ''Page''\<rparr>"

definition exampleTree :: "blockEntity list" where
  "exampleTree = [block ''b1'' ''hello\<newline>id:: b1'' [block ''b2'' ''world'' []]]"

definition exampleIdb :: idb where
  "exampleIdb = \<lparr>logseq_to_samepage = [''b1'' \<mapsto> ''g1''],
                  samepage_to_logseq = [''g1'' \<mapsto> ''b1'']\<rparr>"

definition exampleWorld :: "snapshot world" where
  "exampleWorld =
     \<lparr>host = \<lparr>sn_page = Some examplePage, sn_tree = exampleTree, sn_created = None\<rparr>,
      idb = exampleIdb, v4_count = 0, calls = [], expectedSamepageToLogseq = []\<rparr>"

definition exampleV4 :: "nat \<Rightarrow> string" where
  "exampleV4 n = ''g2''"


section \<open>Predicates the theorems are stated with\<close>




text \<open>
  \<open>graft k T F\<close> appends the trees \<open>F\<close> to the children found \<open>k\<close> levels down the
  last branch of \<open>T\<close>; \<open>spine k T\<close> says that this branch is that deep.
\<close>

fun graft :: "nat \<Rightarrow> 'a tree list \<Rightarrow> 'a tree list \<Rightarrow> 'a tree list" where
  "graft 0 T F = T @ F"
| "graft (Suc k) T F = butlast T @ [Tree (tdata (last T)) (graft k (children (last T)) F)]"

fun spine :: "nat \<Rightarrow> 'a tree list \<Rightarrow> bool" where
  "spine 0 T = True"
| "spine (Suc k) T = (T \<noteq> [] \<and> spine k (children (last T)))"

definition is_block :: "annotation \<Rightarrow> bool" where
  "is_block a = (case a_type a of Block i l v \<Rightarrow> True | _ \<Rightarrow> False)"

definition parser_inline :: "parser \<Rightarrow> bool" where
  "parser_inline P = (\<forall>s. \<forall>a \<in> set (annotations (P s)). \<not> is_block a)"

abbreviation shape :: "'a tree \<Rightarrow> unit tree" where
  "shape \<equiv> map_tree (\<lambda>x. ())"

definition shapes :: "pass \<Rightarrow> unit tree list" where
  "shapes s = map shape (expectedTree s)"

definition readFrom :: "string \<Rightarrow> pass \<Rightarrow> annotation list \<Rightarrow> pass" where
  "readFrom text s annos = foldl (\<lambda>s anno. applyAnnotation text anno s) s annos"

definition rebuilds :: "string \<Rightarrow> nat \<Rightarrow> annotation list \<Rightarrow> unit tree list \<Rightarrow> bool" where
  "rebuilds text k annos F =
     (\<forall>s. spine k (shapes s) \<longrightarrow> shapes (readFrom text s annos) = graft k (shapes s) F)"

text \<open>A document of four blocks at the levels 0, 1, 1, 0.\<close>

definition levelsDoc :: schema where
  "levelsDoc =
     \<lparr>content = ''abcd'',
      annotations =
        [\<lparr>a_type = Block ''a'' 0 Bullet, a_start = 0, a_end = 1\<rparr>,
         \<lparr>a_type = Block ''b'' 1 Bullet, a_start = 1, a_end = 2\<rparr>,
         \<lparr>a_type = Block ''c'' 1 Bullet, a_start = 2, a_end = 3\<rparr>,
         \<lparr>a_type = Block ''d'' 0 Bullet, a_start = 3, a_end = 4\<rparr>]\<rparr>"


section \<open>The serializer's offset propagation\<close>

text \<open>
  C1. After the substring addressed by \<open>c\<close> is wrapped, every annotation still to be
  applied has its start moved by the prefix length when it starts at or after \<open>c\<close>'s
  start, and by the suffix length when it starts at or after \<open>c\<close>'s end; its end is
  moved by the prefix length when it is at or after \<open>c\<close>'s start and by the suffix
  length when it is strictly after \<open>c\<close>'s end. On \<open>helloworld\<close> with bold [0,5) and
  link [5,10) to \<open>x\<close> the link is moved to [9,14) and the text is
  \<open>**hello**[world](x)\<close>.
\<close>

theorem serializer_shift:
  "annotatedText p (c # rest) =
     annotatedText
       (js_slice p 0 (a_start c) @ prefix (appliedAnnotation (a_type c))
          @ js_slice p (a_start c) (a_end c) @ suffix (appliedAnnotation (a_type c))
          @ js_slice_from p (a_end c))
       (map (shiftAnnotation c (appliedAnnotation (a_type c))) rest)
   \<and> a_start (shiftAnnotation c ap a) =
       a_start a + (if a_start a \<ge> a_start c then int (length (prefix ap)) else 0)
                 + (if a_start a \<ge> a_end c then int (length (suffix ap)) else 0)
   \<and> a_end (shiftAnnotation c ap a) =
       a_end a + (if a_end a \<ge> a_start c then int (length (prefix ap)) else 0)
               + (if a_end a > a_end c then int (length (suffix ap)) else 0)
   \<and> a_type (shiftAnnotation c ap a) = a_type a
   \<and> map (shiftAnnotation \<lparr>a_type = Bold, a_start = 0, a_end = 5\<rparr> (appliedAnnotation Bold))
         [\<lparr>a_type = Link ''x'', a_start = 5, a_end = 10\<rparr>]
       = [\<lparr>a_type = Link ''x'', a_start = 9, a_end = 14\<rparr>]
   \<and> annotatedText ''helloworld''
         [\<lparr>a_type = Bold, a_start = 0, a_end = 5\<rparr>,
          \<lparr>a_type = Link ''x'', a_start = 5, a_end = 10\<rparr>]
       = ''**hello**[world](x)''"
  by (simp add: shiftAnnotation_def wrapText_def js_slice_def js_slice_from_def js_index_def
      Let_def)


section \<open>The content-block filter\<close>

text \<open>
  A property line is a key of lower-case letters, \<open>:: \<close>, a value without a newline,
  and a newline.
\<close>

definition property_line :: "string \<times> string \<Rightarrow> string" where
  "property_line kv = fst kv @ '':: '' @ snd kv @ [newline]"

definition is_property :: "string \<times> string \<Rightarrow> bool" where
  "is_property kv = (fst kv \<noteq> [] \<and> list_all is_lower (fst kv) \<and> snd kv \<noteq> [] \<and> newline \<notin> set (snd kv))"

lemma not_lower_colon: "\<not> is_lower CHR '':''" by (simp add: is_lower_def)

lemma takeWhile_lower_key:
  "list_all is_lower k \<Longrightarrow> takeWhile is_lower (k @ CHR '':'' # r) = k"
  by (induction k) (auto simp: not_lower_colon)

lemma dropWhile_lower_key:
  "list_all is_lower k \<Longrightarrow> dropWhile is_lower (k @ CHR '':'' # r) = CHR '':'' # r"
  by (induction k) (auto simp: not_lower_colon)

lemma takeWhile_value: "newline \<notin> set v \<Longrightarrow> takeWhile (\<lambda>c. c \<noteq> newline) (v @ newline # r) = v"
  by (induction v) auto

lemma dropWhile_value: "newline \<notin> set v \<Longrightarrow> dropWhile (\<lambda>c. c \<noteq> newline) (v @ newline # r) = newline # r"
  by (induction v) auto

lemma match_property_line:
  assumes "k \<noteq> []" "list_all is_lower k" "v \<noteq> []" "newline \<notin> set v"
  shows "match_property (k @ '':: '' @ v @ newline # rest) = Some rest"
  using assms
  by (simp add: match_property_def Let_def takeWhile_lower_key dropWhile_lower_key
      takeWhile_value dropWhile_value)

lemma takeWhile_value_end: "newline \<notin> set v \<Longrightarrow> takeWhile (\<lambda>c. c \<noteq> newline) v = v"
  by (induction v) auto

lemma dropWhile_value_end: "newline \<notin> set v \<Longrightarrow> dropWhile (\<lambda>c. c \<noteq> newline) v = []"
  by (induction v) auto

lemma match_property_last:
  assumes "k \<noteq> []" "list_all is_lower k" "v \<noteq> []" "newline \<notin> set v"
  shows "match_property (k @ '':: '' @ v) = Some []"
  using assms
  by (simp add: match_property_def Let_def takeWhile_lower_key dropWhile_lower_key
      takeWhile_value_end dropWhile_value_end)

lemma replace_properties_match:
  "match_property s = Some r \<Longrightarrow> replace_properties s = replace_properties r"
  by (cases s) (auto simp: match_property_def)

lemma replace_properties_lines:
  "list_all is_property kvs \<Longrightarrow> replace_properties (concat (map property_line kvs) @ rest) = replace_properties rest"
proof (induction kvs)
  case Nil
  then show ?case by simp
next
  case (Cons kv kvs)
  then have p: "is_property kv" and ps: "list_all is_property kvs" by auto
  have "match_property (fst kv @ '':: '' @ snd kv @ newline # (concat (map property_line kvs) @ rest))
        = Some (concat (map property_line kvs) @ rest)"
    using p by (intro match_property_line) (auto simp: is_property_def)
  from replace_properties_match[OF this]
  have "replace_properties (concat (map property_line (kv # kvs)) @ rest)
        = replace_properties (concat (map property_line kvs) @ rest)"
    by (simp add: property_line_def)
  with Cons.IH ps show ?case by simp
qed

lemma no_colon_no_match: "CHR '':'' \<notin> set s \<Longrightarrow> match_property s = None"
proof -
  assume a: "CHR '':'' \<notin> set s"
  have "set (dropWhile is_lower s) \<subseteq> set s" by (rule set_dropWhileD[THEN subsetI]) 
  then have "CHR '':'' \<notin> set (take 3 (dropWhile is_lower s))"
    using a by (meson in_set_takeD subsetD)
  then have "take 3 (dropWhile is_lower s) \<noteq> '':: ''" by auto
  then show ?thesis by (simp add: match_property_def Let_def)
qed

lemma replace_properties_plain: "CHR '':'' \<notin> set s \<Longrightarrow> replace_properties s = s"
proof (induction s)
  case Nil
  then show ?case by simp
next
  case (Cons c cs)
  then have "match_property (c # cs) = None" by (intro no_colon_no_match) simp
  with Cons show ?case by simp
qed

text \<open>
  C6, as the program has it. The filter keeps a block exactly when its raw text is
  empty or is not empty once every match of \<open>[a-z]+:: [^\n]+\n?\<close> is removed. So
  a block that consists of property lines only is dropped, and a block without a colon
  (the empty block among them) is kept.
\<close>

theorem isContentBlock_keeps:
  "(isContentBlock b \<longleftrightarrow>
      be_content (tdata b) = [] \<or> replace_properties (be_content (tdata b)) \<noteq> [])
   \<and> (kvs \<noteq> [] \<and> list_all is_property kvs
        \<and> be_content (tdata b) = concat (map property_line kvs) \<longrightarrow> \<not> isContentBlock b)
   \<and> (is_property kv \<and> list_all is_property kvs
        \<and> be_content (tdata b) = concat (map property_line kvs) @ fst kv @ '':: '' @ snd kv
        \<longrightarrow> \<not> isContentBlock b)
   \<and> (CHR '':'' \<notin> set (be_content (tdata b)) \<longrightarrow> isContentBlock b)"
proof (intro conjI impI)
  show "isContentBlock b \<longleftrightarrow>
      be_content (tdata b) = [] \<or> replace_properties (be_content (tdata b)) \<noteq> []"
    by (simp add: isContentBlock_def)
next
  assume a: "kvs \<noteq> [] \<and> list_all is_property kvs
      \<and> be_content (tdata b) = concat (map property_line kvs)"
  then obtain kv rest where kvs: "kvs = kv # rest" by (cases kvs) auto
  have "replace_properties (concat (map property_line kvs) @ []) = replace_properties []"
    using a by (intro replace_properties_lines) simp
  moreover have "concat (map property_line kvs) \<noteq> []"
    by (simp add: kvs property_line_def)
  ultimately show "\<not> isContentBlock b" using a by (simp add: isContentBlock_def)
next
  assume a: "is_property kv \<and> list_all is_property kvs
      \<and> be_content (tdata b) = concat (map property_line kvs) @ fst kv @ '':: '' @ snd kv"
  then have "match_property (fst kv @ '':: '' @ snd kv) = Some []"
    by (intro match_property_last) (simp_all add: is_property_def)
  from replace_properties_match[OF this]
  have "replace_properties (fst kv @ '':: '' @ snd kv) = []" by simp
  moreover have "replace_properties (concat (map property_line kvs) @ fst kv @ '':: '' @ snd kv)
      = replace_properties (fst kv @ '':: '' @ snd kv)"
    using a by (intro replace_properties_lines) simp
  ultimately show "\<not> isContentBlock b" using a by (simp add: isContentBlock_def)
next
  assume "CHR '':'' \<notin> set (be_content (tdata b))"
  then have "replace_properties (be_content (tdata b)) = be_content (tdata b)"
    by (rule replace_properties_plain)
  then show "isContentBlock b" by (simp add: isContentBlock_def)
qed

theorem isContentBlock_keeps_witness:
  "\<not> isContentBlock
       (Tree \<lparr>be_uuid = ''b1'', be_content = ''id:: b1\<newline>title:: Page'',
              be_viewType = None, be_samepage = []\<rparr> [])
   \<and> \<not> isContentBlock
       (Tree \<lparr>be_uuid = ''b1'', be_content = ''id:: b1\<newline>'',
              be_viewType = None, be_samepage = []\<rparr> [])
   \<and> isContentBlock
       (Tree \<lparr>be_uuid = ''b2'', be_content = ''hello'', be_viewType = None, be_samepage = []\<rparr> [])"
proof -
  let ?b1 = "Tree \<lparr>be_uuid = ''b1'', be_content = ''id:: b1\<newline>title:: Page'',
                    be_viewType = None, be_samepage = []\<rparr> []"
  let ?b2 = "Tree \<lparr>be_uuid = ''b1'', be_content = ''id:: b1\<newline>'',
                    be_viewType = None, be_samepage = []\<rparr> []"
  let ?b3 = "Tree \<lparr>be_uuid = ''b2'', be_content = ''hello'', be_viewType = None,
                    be_samepage = []\<rparr> []"
  have 1: "\<not> isContentBlock ?b1"
    using isContentBlock_keeps [of ?b1 "[(''id'', ''b1'')]" "(''title'', ''Page'')",
        THEN conjunct2, THEN conjunct2, THEN conjunct1]
    by (simp add: is_property_def property_line_def is_lower_def)
  have 2: "\<not> isContentBlock ?b2"
    using isContentBlock_keeps [of ?b2 "[(''id'', ''b1'')]", THEN conjunct2, THEN conjunct1]
    by (simp add: is_property_def property_line_def is_lower_def)
  have 3: "isContentBlock ?b3"
    using isContentBlock_keeps [of ?b3, THEN conjunct2, THEN conjunct2, THEN conjunct2]
    by simp
  from 1 2 3 show ?thesis by (simp only: simp_thms)
qed

text \<open>
  The claim C6 as written drops the empty block: its text is empty after stripping.
  The program keeps it.
\<close>

theorem isContentBlock_empty_counterexample:
  "\<not> (isContentBlock
         (Tree \<lparr>be_uuid = ''b1'', be_content = [], be_viewType = None, be_samepage = []\<rparr> [])
       \<longleftrightarrow> replace_properties
             (be_content
                (tdata (Tree \<lparr>be_uuid = ''b1'', be_content = [], be_viewType = None,
                              be_samepage = []\<rparr> []))) \<noteq> [])"
  by (simp add: isContentBlock_def)


section \<open>The offset invariant of the encoder\<close>













section \<open>What the encoder strips before parsing\<close>

























section \<open>Rebuilding the tree from the levels\<close>

lemma insertAtLevel_zero: "insertAtLevel nodes 0 x = nodes @ [x]"
  by (simp add: insertAtLevel.simps)

lemma insertAtLevel_Nil: "insertAtLevel [] l x = [x]"
  by (simp add: insertAtLevel.simps)

lemma insertAtLevel_snoc:
  "l \<noteq> 0 \<Longrightarrow> insertAtLevel (ns @ [Tree a cs]) l x = ns @ [Tree a (insertAtLevel cs (l - 1) x)]"
  by (subst insertAtLevel.simps) simp

lemma insertAtLevel_map:
  "map (map_tree f) (insertAtLevel T l x) = insertAtLevel (map (map_tree f) T) l (map_tree f x)"
proof (induction T l x rule: insertAtLevel.induct)
  case (1 nodes level currentBlock)
  show ?case
  proof (cases "level = 0 \<or> nodes = []")
    case True
    then show ?thesis by (auto simp: insertAtLevel_zero insertAtLevel_Nil)
  next
    case False
    then have ne: "nodes \<noteq> []" and l: "level \<noteq> 0" by auto
    have lhs: "insertAtLevel nodes level currentBlock = butlast nodes @
             [Tree (tdata (last nodes))
                (insertAtLevel (children (last nodes)) (level - 1) currentBlock)]"
      using False by (subst insertAtLevel.simps) simp
    have rhs: "insertAtLevel (map (map_tree f) nodes) level (map_tree f currentBlock)
        = butlast (map (map_tree f) nodes) @
             [Tree (tdata (last (map (map_tree f) nodes)))
                (insertAtLevel (children (last (map (map_tree f) nodes))) (level - 1) (map_tree f currentBlock))]"
      using False by (subst insertAtLevel.simps) simp
    show ?thesis
      using "1.IH"[OF False] ne
      by (simp add: lhs rhs map_butlast last_map tree.map_sel)
  qed
qed

lemma insert_graft: "spine k T \<Longrightarrow> insertAtLevel T (int k) x = graft k T [x]"
proof (induction k arbitrary: T)
  case 0
  then show ?case by (simp add: insertAtLevel_zero)
next
  case (Suc k)
  then have ne: "T \<noteq> []" and sp: "spine k (children (last T))" by simp_all
  have "insertAtLevel T (int (Suc k)) x = butlast T @
             [Tree (tdata (last T)) (insertAtLevel (children (last T)) (int (Suc k) - 1) x)]"
    using ne by (subst insertAtLevel.simps) simp
  with Suc.IH[OF sp] show ?case by simp
qed

lemma spine_graft: "spine k T \<Longrightarrow> spine k (graft k T F)"
  by (induction k arbitrary: T) auto

lemma spine_graft_Suc: "spine k T \<Longrightarrow> F \<noteq> [] \<Longrightarrow> spine (Suc k) (graft k T F)"
  by (induction k arbitrary: T) auto

lemma graft_graft: "spine k T \<Longrightarrow> graft k (graft k T F) F' = graft k T (F @ F')"
  by (induction k arbitrary: T) auto

lemma graft_below:
  "spine k T \<Longrightarrow> graft (Suc k) (graft k T [Tree a cs]) F = graft k T [Tree a (cs @ F)]"
  by (induction k arbitrary: T) auto


lemma shapes_block:
  "a_type a = Block i l v \<Longrightarrow>
     shapes (applyAnnotation text a s) = insertAtLevel (shapes s) l (Tree () [])"
  by (simp add: applyAnnotation_def shapes_def Let_def insertAtLevel_map)

lemma shapes_inline: "\<not> is_block a \<Longrightarrow> shapes (applyAnnotation text a s) = shapes s"
  by (auto simp: applyAnnotation_def shapes_def is_block_def
      split: annotation_type.splits option.splits)

lemma readFrom_append: "readFrom text s (xs @ ys) = readFrom text (readFrom text s xs) ys"
  by (simp add: readFrom_def)

lemma readFrom_Cons: "readFrom text s (x # xs) = readFrom text (applyAnnotation text x s) xs"
  by (simp add: readFrom_def)

lemma readFrom_Nil: "readFrom text s [] = s"
  by (simp add: readFrom_def)

lemma shapes_inlines:
  "\<forall>a \<in> set xs. \<not> is_block a \<Longrightarrow> shapes (readFrom text s xs) = shapes s"
  by (induction xs arbitrary: s) (simp_all add: readFrom_Cons readFrom_Nil shapes_inline)

lemma is_block_rebase: "is_block (rebase i a) = is_block a"
  by (simp add: is_block_def rebase_def)

lemma graft_Nil: "spine k T \<Longrightarrow> graft k T [] = T"
  by (induction k arbitrary: T) simp_all

lemma rebuilds_Nil: "rebuilds text k [] []"
  by (simp add: rebuilds_def readFrom_Nil graft_Nil)

lemma rebuilds_append:
  assumes "rebuilds text k xs F" "rebuilds text k ys F'"
  shows "rebuilds text k (xs @ ys) (F @ F')"
  unfolding rebuilds_def
proof (intro allI impI)
  fix s assume sp: "spine k (shapes s)"
  with assms(1) have 1: "shapes (readFrom text s xs) = graft k (shapes s) F"
    by (simp add: rebuilds_def)
  with sp have "spine k (shapes (readFrom text s xs))" by (simp add: spine_graft)
  with assms(2) have "shapes (readFrom text (readFrom text s xs) ys)
      = graft k (shapes (readFrom text s xs)) F'" by (simp add: rebuilds_def)
  with 1 sp show "shapes (readFrom text s (xs @ ys)) = graft k (shapes s) (F @ F')"
    by (simp add: readFrom_append graft_graft)
qed

lemma rebuilds_node:
  assumes b: "a_type a = Block i (int k) v"
    and inl: "\<forall>x \<in> set xs. \<not> is_block x"
    and kids: "rebuilds text (Suc k) ys F"
  shows "rebuilds text k (a # xs @ ys) [Tree () F]"
  unfolding rebuilds_def
proof (intro allI impI)
  fix s assume sp: "spine k (shapes s)"
  let ?s1 = "applyAnnotation text a s"
  let ?s2 = "readFrom text ?s1 xs"
  have 1: "shapes ?s1 = graft k (shapes s) [Tree () []]"
    using sp by (simp add: shapes_block[OF b] insert_graft)
  have 2: "shapes ?s2 = graft k (shapes s) [Tree () []]"
    using inl by (simp add: shapes_inlines 1)
  have "spine (Suc k) (shapes ?s2)" unfolding 2 using sp by (intro spine_graft_Suc) simp_all
  with kids have "shapes (readFrom text ?s2 ys) = graft (Suc k) (shapes ?s2) F"
    by (simp add: rebuilds_def)
  also have "\<dots> = graft k (shapes s) [Tree () ([] @ F)]"
    unfolding 2 using sp by (rule graft_below)
  finally show "shapes (readFrom text s (a # xs @ ys)) = graft k (shapes s) [Tree () F]"
    by (simp add: readFrom_Cons readFrom_append)
qed

lemma toAtJsonFrom_rebuilds:
  fixes w :: "'h world"
  assumes nodes: "\<And>n vt index (w :: 'h world) d w'. n \<in> set ns \<Longrightarrow>
             toAtJsonNode P G n (int k) vt index w = (d, w') \<Longrightarrow>
             rebuilds text k (annotations d) [shape n]"
  shows "toAtJsonFrom P G ns (int k) startIndex viewType p w = (d, w') \<Longrightarrow>
           rebuilds text k (annotations p) F \<Longrightarrow>
           rebuilds text k (annotations d) (F @ map shape ns)"
  using nodes
proof (induction ns arbitrary: p w F)
  case Nil
  then show ?case by simp
next
  case (Cons n ns)
  obtain c w1 where c: "toAtJsonNode P G n (int k) viewType (startIndex + int (length (content p))) w = (c, w1)"
    by (cases "toAtJsonNode P G n (int k) viewType (startIndex + int (length (content p))) w")
  have "rebuilds text k (annotations c) [shape n]"
    using Cons.prems(3)[OF _ c] by simp
  with Cons.prems(2) have acc: "rebuilds text k (annotations (concatSchema p c)) (F @ [shape n])"
    by (simp add: concatSchema_def rebuilds_append)
  from Cons.prems(1) c
  have "toAtJsonFrom P G ns (int k) startIndex viewType (concatSchema p c) w1 = (d, w')" by simp
  from this acc have "rebuilds text k (annotations d) ((F @ [shape n]) @ map shape ns)"
  proof (rule Cons.IH)
    fix m vt index and w :: "'h world" and d w'
    assume "m \<in> set ns" "toAtJsonNode P G m (int k) vt index w = (d, w')"
    then show "rebuilds text k (annotations d) [shape m]" using Cons.prems(3)[of m] by simp
  qed
  then show ?case by simp
qed

lemma toAtJsonNode_rebuilds:
  fixes w :: "'h world"
  assumes P: "parser_inline P"
  shows "toAtJsonNode P G n (int k) viewType index w = (d, w') \<Longrightarrow>
           rebuilds text k (annotations d) [shape n]"
proof (induction n arbitrary: k viewType index w d w')
  case (Tree n kids)
  obtain ident w1 where r: "resolveIdentifier G (be_uuid n) w = (ident, w1)"
    by (cases "resolveIdentifier G (be_uuid n) w")
  define parsed where "parsed = P (preContent (be_uuid n) (be_content n))"
  define end' where "end' = int (length (content parsed)) + index"
  define vt where "vt = (case be_viewType n of Some v \<Rightarrow> v | None \<Rightarrow> viewType)"
  obtain childrenDoc w2 where kd:
    "toAtJsonFrom P G kids (int (Suc k)) end' vt \<lparr>content = [], annotations = []\<rparr> w1 = (childrenDoc, w2)"
    by (cases "toAtJsonFrom P G kids (int (Suc k)) end' vt \<lparr>content = [], annotations = []\<rparr> w1")
  have d: "annotations d = \<lparr>a_type = Block ident (int k) viewType, a_start = index, a_end = end'\<rparr>
          # map (rebase index) (annotations parsed) @ annotations childrenDoc"
    using Tree.prems r kd by (auto simp: parsed_def end'_def vt_def Let_def add.commute)
  have "rebuilds text (Suc k) (annotations \<lparr>content = [], annotations = []\<rparr>) []"
    by (simp add: rebuilds_Nil)
  with kd have "rebuilds text (Suc k) (annotations childrenDoc) ([] @ map shape kids)"
  proof (rule toAtJsonFrom_rebuilds[rotated])
    fix m vt index and w :: "'h world" and d w'
    assume "m \<in> set kids" "toAtJsonNode P G m (int (Suc k)) vt index w = (d, w')"
    then show "rebuilds text (Suc k) (annotations d) [shape m]" by (rule Tree.IH)
  qed
  then have kids: "rebuilds text (Suc k) (annotations childrenDoc) (map shape kids)" by simp
  have inl: "\<forall>x \<in> set (map (rebase index) (annotations parsed)). \<not> is_block x"
    using P by (auto simp: parser_inline_def parsed_def is_block_rebase)
  have "rebuilds text k (annotations d) [Tree () (map shape kids)]"
    unfolding d by (rule rebuilds_node[OF _ inl kids]) simp
  then show ?case by simp
qed


lemma levelsDoc_tree:
  "map (map_tree n_uuid) (expectedTree (readAnnotations levelsDoc))
     = [Tree ''a'' [Tree ''b'' [], Tree ''c'' []], Tree ''d'' []]"
  by code_simp

lemma expectedTree_block:
  "a_type a = Block i l v \<Longrightarrow>
     expectedTree (applyAnnotation text a s)
       = insertAtLevel (expectedTree s) l
           (Tree \<lparr>n_addr = allocated s, n_uuid = i,
                  n_content = js_slice text (a_start a) (a_end a), n_viewType = Bullet\<rparr> [])"
  by (simp add: applyAnnotation_def Let_def)

lemma readAnnotations_shape:
  fixes w :: "'h world"
  assumes P: "parser_inline P"
    and enc: "toAtJson P G nodes 0 startIndex viewType w = (doc, w')"
  shows "map shape (expectedTree (readAnnotations
           \<lparr>content = text,
            annotations = \<lparr>a_type = Metadata title parent, a_start = 0, a_end = startIndex\<rparr>
                            # annotations doc\<rparr>))
         = map shape nodes"
proof -
  let ?m = "\<lparr>a_type = Metadata title parent, a_start = 0, a_end = startIndex\<rparr>"
  let ?s = "applyAnnotation text ?m emptyPass"
  have s: "shapes ?s = []" by (simp add: applyAnnotation_def shapes_def emptyPass_def)
  from enc
  have "toAtJsonFrom P G nodes (int 0) startIndex viewType \<lparr>content = [], annotations = []\<rparr> w
          = (doc, w')" by (simp add: toAtJson_def)
  moreover have "rebuilds text 0 (annotations \<lparr>content = [], annotations = []\<rparr>) []"
    by (simp add: rebuilds_Nil)
  ultimately have "rebuilds text 0 (annotations doc) ([] @ map shape nodes)"
  proof (rule toAtJsonFrom_rebuilds[rotated])
    fix m vt index and w :: "'h world" and d w'
    assume "m \<in> set nodes" "toAtJsonNode P G m (int 0) vt index w = (d, w')"
    then show "rebuilds text 0 (annotations d) [shape m]" using toAtJsonNode_rebuilds[OF P] by blast
  qed
  then have "shapes (readFrom text ?s (annotations doc)) = graft 0 (shapes ?s) (map shape nodes)"
    by (simp add: rebuilds_def)
  then have "shapes (readFrom text ?s (annotations doc)) = map shape nodes"
    by (simp only: s graft.simps append_Nil)
  then show ?thesis
    by (simp add: shapes_def readAnnotations_def readFrom_def)
qed

text \<open>
  C5. A block annotation is inserted by \<open>insertAtLevel\<close> at its level: level 0, or an
  empty list, appends; another level goes down into the children of the last node.
  Reading the annotations that the encoder wrote for a forest gives back a forest of
  the same shape (the inline parser returns no block annotation). Blocks at the levels
  0, 1, 1, 0 give one root with two children, followed by a second root.
\<close>

theorem expectedTree_inverts_encoder:
  fixes w :: "'h world"
  shows
  "(a_type a = Block i l v \<longrightarrow>
      expectedTree (applyAnnotation text a s)
        = insertAtLevel (expectedTree s) l
            (Tree \<lparr>n_addr = allocated s, n_uuid = i,
                   n_content = js_slice text (a_start a) (a_end a), n_viewType = Bullet\<rparr> []))
   \<and> insertAtLevel ts 0 x = ts @ [x]
   \<and> insertAtLevel [] k x = [x]
   \<and> (k \<noteq> 0 \<longrightarrow>
        insertAtLevel (ts @ [Tree y cs]) k x = ts @ [Tree y (insertAtLevel cs (k - 1) x)])
   \<and> (parser_inline P \<and> toAtJson P G nodes 0 startIndex viewType w = (doc, w') \<longrightarrow>
        map shape (expectedTree (readAnnotations
           \<lparr>content = text,
            annotations = \<lparr>a_type = Metadata title parent, a_start = 0, a_end = startIndex\<rparr>
                            # annotations doc\<rparr>))
          = map shape nodes)
   \<and> map (map_tree n_uuid) (expectedTree (readAnnotations levelsDoc))
       = [Tree ''a'' [Tree ''b'' [], Tree ''c'' []], Tree ''d'' []]"
  using expectedTree_block [of a i l v "text" s] insertAtLevel_zero [of ts x]
    insertAtLevel_Nil [of k x] insertAtLevel_snoc [of k ts y cs x]
    readAnnotations_shape [of P G nodes startIndex viewType w doc w' "text" title parent]
    levelsDoc_tree
  by (simp only: simp_thms) blast

lemma plainText_inline: "parser_inline plainText"
  by (simp add: parser_inline_def plainText_def)

theorem expectedTree_inverts_encoder_witness:
  "parser_inline plainText
   \<and> expectedTree (applyAnnotation ''Pagehelloworld''
         \<lparr>a_type = Block ''g1'' 0 Bullet, a_start = 4, a_end = 9\<rparr> emptyPass)
       = insertAtLevel (expectedTree emptyPass) 0
           (Tree \<lparr>n_addr = allocated emptyPass, n_uuid = ''g1'',
                  n_content = js_slice ''Pagehelloworld'' 4 9, n_viewType = Bullet\<rparr> [])
   \<and> insertAtLevel [Tree ''a'' [Tree ''b'' []]] 1 (Tree ''c'' [])
       = [Tree ''a'' (insertAtLevel [Tree ''b'' []] 0 (Tree ''c'' []))]
   \<and> map shape (expectedTree (readAnnotations
         \<lparr>content = ''Pagehelloworld'',
          annotations = \<lparr>a_type = Metadata ''Page'' [], a_start = 0, a_end = 4\<rparr>
            # annotations (fst (toAtJson plainText exampleV4 exampleTree 0 4 Bullet exampleWorld))\<rparr>))
       = map shape exampleTree"
  using plainText_inline
    expectedTree_inverts_encoder
      [of "\<lparr>a_type = Block ''g1'' 0 Bullet, a_start = 4, a_end = 9\<rparr>" "''g1''" 0 Bullet
          "''Pagehelloworld''" emptyPass "[]" "Tree ''c'' []" 1 "''a''" "[Tree ''b'' []]"
          plainText exampleV4 exampleTree 4 Bullet exampleWorld
          "fst (toAtJson plainText exampleV4 exampleTree 0 4 Bullet exampleWorld)"
          "snd (toAtJson plainText exampleV4 exampleTree 0 4 Bullet exampleWorld)"
          "''Page''" "[]"]
  by simp

end
